theory Spec2Isabelle
  imports Main "HOL-Library.Char_ord" "HOL-Library.List_Lexorder" "HOL-Library.Multiset"
begin

section \<open>The tables of tasks/mimic\_utils.py\<close>

text \<open>
  A pandas DataFrame is a list of rows, a row a record of its columns. A cell that
  can be missing (NaN) is an \<open>option\<close>: \<open>None\<close> is the missing value. pandas compares
  a missing cell unequal to every string (\<open>NaN != "NEWBORN"\<close> is true,
  \<open>NaN == "Report"\<close> is false), and \<open>isin\<close> and \<open>drop_duplicates\<close> treat two
  missing cells as the same value: both are what equality on \<open>option\<close> gives.
  CHARTDATE is the text of the date as the CSV file holds it (\<open>2151-08-04\<close>), ordered
  as Python orders strings. A character is a code point below 256.

  Three things the functions call are not in the repository and are parameters of the
  model: the sort behind \<open>sort_values\<close> (pandas' default quicksort, which fixes no order
  among rows of equal CHARTDATE), numpy's generator behind \<open>sample\<close>, and numpy's
  conversion behind \<open>astype(int)\<close>.
\<close>

record note_row =
  ROW_ID :: int
  SUBJECT_ID :: "int option"
  HADM_ID :: "int option"
  CHARTDATE :: "string option"
  CATEGORY :: "string option"
  DESCRIPTION :: "string option"
  TEXT :: "string option"

record admission =
  adm_HADM_ID :: "int option"
  ADMISSION_TYPE :: "string option"

text \<open>The eight section columns that \<open>extract_sections\<close> returns as a dictionary.\<close>

record sections =
  CHIEF_COMPLAINT :: string
  PRESENT_ILLNESS :: string
  MEDICAL_HISTORY :: string
  MEDICATION_ADM :: string
  ALLERGIES :: string
  PHYSICAL_EXAM :: string
  FAMILY_HISTORY :: string
  SOCIAL_HISTORY :: string

text \<open>
  A row of the merged table of \<open>filter_notes\<close>: the group key and joined text of
  \<open>combined_adm_texts\<close>, then ROW\_ID, SUBJECT\_ID and CHARTDATE of the report row. The
  section columns exist only after \<open>filter_admission_text\<close> (\<open>None\<close> before).
\<close>

record cnote =
  c_HADM_ID :: int
  c_TEXT :: string
  c_ROW_ID :: int
  c_SUBJECT_ID :: "int option"
  c_CHARTDATE :: "string option"
  c_extracted :: "sections option"

text \<open>The exceptions that the two functions let escape.\<close>

datatype error = AttributeError | IntCastingNaNError | ValueError

section \<open>Text primitives\<close>

definition nl :: char where
  "nl = CHR 0x0A"

text \<open>\<open>str.isspace\<close> and the regular expression's \<open>\s\<close> on code points below 256.\<close>

definition is_space :: "char \<Rightarrow> bool" where
  "is_space c = ((of_char c :: nat) \<in> set [9, 10, 11, 12, 13, 28, 29, 30, 31, 32, 133, 160])"

text \<open>\<open>re.IGNORECASE\<close> on code points below 256: a letter of a label matches itself
  and its upper-case form.\<close>

definition to_lower :: "char \<Rightarrow> char" where
  "to_lower c = (let n = (of_char c :: nat) in if 65 \<le> n \<and> n \<le> 90 then char_of (n + 32) else c)"

text \<open>\<open>str.strip()\<close>.\<close>

definition str_strip :: "string \<Rightarrow> string" where
  "str_strip s = rev (dropWhile is_space (rev (dropWhile is_space s)))"

text \<open>\<open>sep.join(xs)\<close>.\<close>

fun str_join :: "string \<Rightarrow> string list \<Rightarrow> string" where
  "str_join sep [] = []"
| "str_join sep [x] = x"
| "str_join sep (x # y # ys) = x @ sep @ str_join sep (y # ys)"

section \<open>extract\_sections\<close>

text \<open>
  Every pattern is \<open>label:\s*([\s\S]*?)(?:\n\n|\Z)\<close>, searched with
  \<open>re.IGNORECASE | re.DOTALL\<close>. \<open>re.search\<close> returns the match at the leftmost
  position where the pattern matches. At a position where the label matches, the greedy
  \<open>\s*\<close> first takes all the white space that follows; the lazy group then grows one
  character at a time until two newlines or the end of the text follow, which always
  happens, so no backtracking into \<open>\s*\<close> takes place.
\<close>

fun match_label :: "string \<Rightarrow> string \<Rightarrow> string option" where
  "match_label [] s = Some s"
| "match_label (p # ps) [] = None"
| "match_label (p # ps) (c # cs) = (if to_lower c = to_lower p then match_label ps cs else None)"

fun lazy_group :: "string \<Rightarrow> string" where
  "lazy_group (c # d # cs) = (if c = nl \<and> d = nl then [] else c # lazy_group (d # cs))"
| "lazy_group cs = cs"

definition match_at :: "string \<Rightarrow> string \<Rightarrow> string option" where
  "match_at label s = map_option (\<lambda>rest. lazy_group (dropWhile is_space rest)) (match_label label s)"

fun re_search :: "string \<Rightarrow> string \<Rightarrow> string option" where
  "re_search label [] = match_at label []"
| "re_search label (c # cs) =
     (case match_at label (c # cs) of Some g \<Rightarrow> Some g | None \<Rightarrow> re_search label cs)"

text \<open>The body of the loop of \<open>extract_sections\<close> for one key.\<close>

definition extract_one :: "string \<Rightarrow> string \<Rightarrow> string" where
  "extract_one label text = (case re_search label text of Some g \<Rightarrow> str_strip g | None \<Rightarrow> [])"

definition extract_sections :: "string \<Rightarrow> sections" where
  "extract_sections text =
     \<lparr> CHIEF_COMPLAINT = extract_one ''chief complaint:'' text,
       PRESENT_ILLNESS = extract_one ''present illness:'' text,
       MEDICAL_HISTORY = extract_one ''medical history:'' text,
       MEDICATION_ADM = extract_one ''medications on admission:'' text,
       ALLERGIES = extract_one ''allergies:'' text,
       PHYSICAL_EXAM = extract_one ''physical exam:'' text,
       FAMILY_HISTORY = extract_one ''family history:'' text,
       SOCIAL_HISTORY = extract_one ''social history:'' text \<rparr>"

section \<open>filter\_admission\_text\<close>

definition has_main_information :: "sections \<Rightarrow> bool" where
  "has_main_information e =
     (CHIEF_COMPLAINT e \<noteq> [] \<or> PRESENT_ILLNESS e \<noteq> [] \<or> MEDICAL_HISTORY e \<noteq> [])"

definition admission_text :: "sections \<Rightarrow> string" where
  "admission_text e =
     ''CHIEF COMPLAINT: '' @ CHIEF_COMPLAINT e
     @ [nl, nl] @
     ''PRESENT ILLNESS: '' @ PRESENT_ILLNESS e
     @ [nl, nl] @
     ''MEDICAL HISTORY: '' @ MEDICAL_HISTORY e
     @ [nl, nl] @
     ''MEDICATION ON ADMISSION: '' @ MEDICATION_ADM e
     @ [nl, nl] @
     ''ALLERGIES: '' @ ALLERGIES e
     @ [nl, nl] @
     ''PHYSICAL EXAM: '' @ PHYSICAL_EXAM e
     @ [nl, nl] @
     ''FAMILY HISTORY: '' @ FAMILY_HISTORY e
     @ [nl, nl] @
     ''SOCIAL HISTORY: '' @ SOCIAL_HISTORY e"

text \<open>
  On a table with no row, \<open>notes_df['extracted'].apply(pd.Series)\<close> has no column, so
  the table gets no section columns and \<open>notes_df.CHIEF_COMPLAINT\<close> in line 97 raises
  AttributeError.
\<close>

definition filter_admission_text :: "cnote list \<Rightarrow> error + cnote list" where
  "filter_admission_text notes_df =
     (if notes_df = [] then Inl AttributeError
      else
        let extracted = map (\<lambda>r. r\<lparr>c_extracted := Some (extract_sections (c_TEXT r))\<rparr>) notes_df;
            kept = filter (\<lambda>r. case c_extracted r of Some e \<Rightarrow> has_main_information e
                                | None \<Rightarrow> False) extracted
        in Inr (map (\<lambda>r. case c_extracted r of Some e \<Rightarrow> r\<lparr>c_TEXT := admission_text e\<rparr>
                          | None \<Rightarrow> r) kept))"

section \<open>filter\_notes\<close>

text \<open>\<open>admissions_df[admissions_df.ADMISSION_TYPE != "NEWBORN"]\<close>.\<close>

definition adm_grownups :: "admission list \<Rightarrow> admission list" where
  "adm_grownups admissions_df = filter (\<lambda>a. ADMISSION_TYPE a \<noteq> Some ''NEWBORN'') admissions_df"

text \<open>\<open>notes_df[notes_df.HADM_ID.isin(adm_grownups.HADM_ID)]\<close>.\<close>

definition notes_of_grownups :: "note_row list \<Rightarrow> admission list \<Rightarrow> note_row list" where
  "notes_of_grownups notes_df admissions_df =
     filter (\<lambda>n. HADM_ID n \<in> set (map adm_HADM_ID (adm_grownups admissions_df))) notes_df"

text \<open>\<open>drop_duplicates(subset=[col], keep="last")\<close>: a row goes when a later row has
  the same value in the column.\<close>

fun drop_duplicates_last :: "('a \<Rightarrow> 'k) \<Rightarrow> 'a list \<Rightarrow> 'a list" where
  "drop_duplicates_last col [] = []"
| "drop_duplicates_last col (x # xs) =
     (if col x \<in> set (map col xs) then drop_duplicates_last col xs
      else x # drop_duplicates_last col xs)"

text \<open>Lines 26 to 33: the discharge summaries of the admissions that are not newborn,
  with a TEXT and a HADM\_ID.\<close>

definition discharge_summaries :: "note_row list \<Rightarrow> admission list \<Rightarrow> note_row list" where
  "discharge_summaries notes_df admissions_df =
     (let df1 = notes_of_grownups notes_df admissions_df;
          df2 = filter (\<lambda>n. TEXT n \<noteq> None \<and> HADM_ID n \<noteq> None) df1
      in filter (\<lambda>n. CATEGORY n = Some ''Discharge summary'') df2)"

text \<open>
  Lines 36 and 37: the rows that reach the merge of reports and addenda.
  \<open>sort_values(by=["CHARTDATE"])\<close> is the parameter \<open>sort_values\<close>: with one sort
  column pandas sorts with numpy's quicksort, which is not stable, so the source does
  not fix the order of rows of equal CHARTDATE. What is known of it is
  \<open>sorts_by_CHARTDATE\<close> below.
\<close>

definition surviving_notes ::
    "(note_row list \<Rightarrow> note_row list) \<Rightarrow> note_row list \<Rightarrow> admission list \<Rightarrow> note_row list" where
  "surviving_notes sort_values notes_df admissions_df =
     drop_duplicates_last TEXT (sort_values (discharge_summaries notes_df admissions_df))"

text \<open>
  \<open>groupby('HADM_ID')['TEXT'].apply(lambda x: '\n\n'.join(x)).reset_index()\<close>: one row
  for every HADM\_ID that is present, in ascending order of the key, with the texts of
  the group in the order of the table.
\<close>

definition combined_adm_texts :: "note_row list \<Rightarrow> (int \<times> string) list" where
  "combined_adm_texts df =
     map (\<lambda>h. (h, str_join [nl, nl] (List.map_filter TEXT (filter (\<lambda>n. HADM_ID n = Some h) df))))
       (sort (remdups (List.map_filter HADM_ID df)))"

text \<open>Lines 41 to 43: the report rows, the last one of every HADM\_ID.\<close>

definition report_rows :: "note_row list \<Rightarrow> note_row list" where
  "report_rows df = drop_duplicates_last HADM_ID (filter (\<lambda>n. DESCRIPTION n = Some ''Report'') df)"

text \<open>\<open>pd.merge(combined_adm_texts, notes_df, on="HADM_ID", how="inner")\<close>: the pairs
  of rows with the same key, in the order of the left keys.\<close>

definition merge_inner :: "(int \<times> string) list \<Rightarrow> note_row list \<Rightarrow> cnote list" where
  "merge_inner left right =
     concat (map (\<lambda>(h, t).
       map (\<lambda>r. \<lparr> c_HADM_ID = h, c_TEXT = t, c_ROW_ID = ROW_ID r, c_SUBJECT_ID = SUBJECT_ID r,
                   c_CHARTDATE = CHARTDATE r, c_extracted = None \<rparr>)
         (filter (\<lambda>r. HADM_ID r = Some h) right)) left)"

text \<open>Lines 40 to 50: the table before the branch on \<open>admission_text_only\<close>.\<close>

definition consolidated ::
    "(note_row list \<Rightarrow> note_row list) \<Rightarrow> note_row list \<Rightarrow> admission list \<Rightarrow> cnote list" where
  "consolidated sort_values notes_df admissions_df =
     (let df = surviving_notes sort_values notes_df admissions_df;
          merged = merge_inner (combined_adm_texts df) (report_rows df);
          stripped = map (\<lambda>r. r\<lparr>c_TEXT := str_strip (c_TEXT r)\<rparr>) merged
      in filter (\<lambda>r. c_SUBJECT_ID r \<noteq> None) stripped)"

definition filter_notes ::
    "(note_row list \<Rightarrow> note_row list) \<Rightarrow> note_row list \<Rightarrow> admission list \<Rightarrow> bool
      \<Rightarrow> error + cnote list" where
  "filter_notes sort_values notes_df admissions_df admission_text_only =
     (let notes_df = consolidated sort_values notes_df admissions_df
      in if admission_text_only then filter_admission_text notes_df else Inr notes_df)"

section \<open>save\_mimic\_split\_patient\_wise\<close>

text \<open>
  The table the splitter receives has the columns HADM\_ID, SUBJECT\_ID and TEXT of
  \<open>filter_notes\<close> and the label column the caller names. \<open>column_list\<close> is left at
  its default, \<open>["ID", "TEXT", label_column]\<close>.
\<close>

record labelled_row =
  l_HADM_ID :: "int option"
  l_SUBJECT_ID :: "int option"
  l_TEXT :: string
  l_LABEL :: string

text \<open>After \<open>df.rename(columns={'HADM_ID': 'ID'})\<close> and \<open>df.ID.astype(int)\<close>. The
  conversion of a value is the parameter \<open>cast\<close>: numpy leaves an integer in the range
  of int64 as it is, and what it makes of a larger one is not written in the source.\<close>

record keyed_row =
  ID :: int
  k_SUBJECT_ID :: "int option"
  k_TEXT :: string
  k_LABEL :: string

text \<open>A row of a written file: the columns \<open>id\<close>, \<open>text\<close> and the lower-cased label column.\<close>

record out_row =
  o_id :: int
  o_text :: string
  o_label :: string

datatype split_name = Train | Val | Test

definition rename_cast :: "(int \<Rightarrow> int) \<Rightarrow> labelled_row \<Rightarrow> keyed_row option" where
  "rename_cast cast r =
     (case l_HADM_ID r of None \<Rightarrow> None
      | Some h \<Rightarrow>
          Some \<lparr> ID = cast h, k_SUBJECT_ID = l_SUBJECT_ID r, k_TEXT = l_TEXT r, k_LABEL = l_LABEL r \<rparr>)"

text \<open>\<open>astype(int)\<close> raises when a cell of the column is missing.\<close>

definition astype_int :: "(int \<Rightarrow> int) \<Rightarrow> labelled_row list \<Rightarrow> error + keyed_row list" where
  "astype_int cast df =
     (case those (map (rename_cast cast) df) of None \<Rightarrow> Inl IntCastingNaNError | Some ks \<Rightarrow> Inr ks)"

text \<open>
  \<open>sample(frac=1, random_state=seed)\<close> takes the rows at the positions that numpy's
  generator, seeded with \<open>seed\<close>, draws without replacement from \<open>range(len(df))\<close>. The
  generator is not part of the repository: it is the parameter \<open>rng\<close>, from the seed and
  the number of rows to the positions drawn. numpy takes a seed from 0 to 2**32 - 1 and
  raises ValueError for any other, also when the table has no row.
\<close>

definition valid_seed :: "int \<Rightarrow> bool" where
  "valid_seed seed = (0 \<le> seed \<and> seed < 2 ^ 32)"

definition sample :: "(int \<Rightarrow> nat \<Rightarrow> nat list) \<Rightarrow> int \<Rightarrow> 'a list \<Rightarrow> 'a list" where
  "sample rng seed df = map (\<lambda>i. df ! i) (rng seed (length df))"

text \<open>
  \<open>df[df.SUBJECT_ID.isin(data_split[split_name].SUBJECT_ID)].sample(frac=1, random_state=seed)\<close>.
  A row keeps its position in \<open>df\<close> (its index) through both steps.
\<close>

definition split_set :: "(int \<Rightarrow> nat \<Rightarrow> nat list) \<Rightarrow> int \<Rightarrow> int option list \<Rightarrow> keyed_row list
    \<Rightarrow> (nat \<times> keyed_row) list" where
  "split_set rng seed subject_ids df =
     sample rng seed (filter (\<lambda>(i, r). k_SUBJECT_ID r \<in> set subject_ids) (enumerate 0 df))"

definition to_out_row :: "keyed_row \<Rightarrow> out_row" where
  "to_out_row r = \<lparr> o_id = ID r, o_text = k_TEXT r, o_label = k_LABEL r \<rparr>"

definition split_str :: "split_name \<Rightarrow> string" where
  "split_str s = (case s of Train \<Rightarrow> ''train'' | Val \<Rightarrow> ''val'' | Test \<Rightarrow> ''test'')"

text \<open>
  The files written under \<open>save_dir\<close>, in the order of the loop: the name
  \<open>{task_name}_{split_name}.csv\<close> and the rows. The first \<open>sample\<close> raises for a
  seed out of range, before any file is written.
\<close>

definition save_mimic_split_patient_wise ::
    "(int \<Rightarrow> nat \<Rightarrow> nat list) \<Rightarrow> (int \<Rightarrow> int) \<Rightarrow> (split_name \<Rightarrow> int option list)
      \<Rightarrow> labelled_row list \<Rightarrow> string \<Rightarrow> int \<Rightarrow> error + (string \<times> out_row list) list" where
  "save_mimic_split_patient_wise rng cast data_split df task_name seed =
     (case astype_int cast df of
        Inl e \<Rightarrow> Inl e
      | Inr kdf \<Rightarrow>
          if \<not> valid_seed seed then Inl ValueError
          else
            Inr (map (\<lambda>split_name.
                   (task_name @ ''_'' @ split_str split_name @ ''.csv'',
                    map (to_out_row \<circ> snd) (split_set rng seed (data_split split_name) kdf)))
                 [Train, Val, Test]))"

section \<open>Notions the properties are stated with\<close>

text \<open>Chronological order of two rows by CHARTDATE; a row with no date counts as latest.\<close>

definition chart_le :: "note_row \<Rightarrow> note_row \<Rightarrow> bool" where
  "chart_le a b =
     (case CHARTDATE b of None \<Rightarrow> True
      | Some y \<Rightarrow> (case CHARTDATE a of None \<Rightarrow> False | Some x \<Rightarrow> x \<le> y))"

text \<open>
  What pandas promises of \<open>sort_values(by=["CHARTDATE"])\<close>: the rows of the table,
  each as often as before, in ascending order of CHARTDATE with the missing dates last.
\<close>

definition sorts_by_CHARTDATE :: "(note_row list \<Rightarrow> note_row list) \<Rightarrow> bool" where
  "sorts_by_CHARTDATE sort_values =
     (\<forall>df. mset (sort_values df) = mset df \<and> sorted_wrt chart_le (sort_values df))"

text \<open>Two such sorts: one keeps rows of equal date in the order of the table, the other
  puts them in the opposite order.\<close>

definition stable_sort_values :: "note_row list \<Rightarrow> note_row list" where
  "stable_sort_values df =
     sort_key (\<lambda>n. the (CHARTDATE n)) (filter (\<lambda>n. CHARTDATE n \<noteq> None) df)
     @ filter (\<lambda>n. CHARTDATE n = None) df"

definition reversing_sort_values :: "note_row list \<Rightarrow> note_row list" where
  "reversing_sort_values df = stable_sort_values (rev df)"

text \<open>The section headers of the rebuilt text with the value of each section, in the
  order of section 3 of the specification.\<close>

definition labelled_sections :: "sections \<Rightarrow> (string \<times> string) list" where
  "labelled_sections e =
     [(''CHIEF COMPLAINT'', CHIEF_COMPLAINT e), (''PRESENT ILLNESS'', PRESENT_ILLNESS e),
      (''MEDICAL HISTORY'', MEDICAL_HISTORY e), (''MEDICATION ON ADMISSION'', MEDICATION_ADM e),
      (''ALLERGIES'', ALLERGIES e), (''PHYSICAL EXAM'', PHYSICAL_EXAM e),
      (''FAMILY HISTORY'', FAMILY_HISTORY e), (''SOCIAL HISTORY'', SOCIAL_HISTORY e)]"

definition is_upper_or_blank :: "char \<Rightarrow> bool" where
  "is_upper_or_blank c = (c = CHR '' '' \<or> (65 \<le> (of_char c :: nat) \<and> (of_char c :: nat) \<le> 90))"

text \<open>The eight patterns of \<open>extract_sections\<close>: the label each one searches for and
  the column its value goes to.\<close>

definition section_labels :: "(string \<times> (sections \<Rightarrow> string)) list" where
  "section_labels =
     [(''chief complaint:'', CHIEF_COMPLAINT), (''present illness:'', PRESENT_ILLNESS),
      (''medical history:'', MEDICAL_HISTORY), (''medications on admission:'', MEDICATION_ADM),
      (''allergies:'', ALLERGIES), (''physical exam:'', PHYSICAL_EXAM),
      (''family history:'', FAMILY_HISTORY), (''social history:'', SOCIAL_HISTORY)]"

text \<open>The label stands at position \<open>p\<close> of the text, upper and lower case taken as equal.\<close>

definition label_at :: "string \<Rightarrow> string \<Rightarrow> nat \<Rightarrow> bool" where
  "label_at label text p =
     (p + length label \<le> length text \<and>
      map to_lower (take (length label) (drop p text)) = map to_lower label)"

text \<open>Two consecutive newlines somewhere in the text.\<close>

fun has_blank :: "string \<Rightarrow> bool" where
  "has_blank (c # d # cs) = ((c = nl \<and> d = nl) \<or> has_blank (d # cs))"
| "has_blank cs = False"

text \<open>
  The extractor as section 4.3 of the specification words it: the content between the
  label and the next blank line or the end of the text, trimmed. It differs from
  \<open>extract_one\<close> in that no white space is skipped after the label.
\<close>

fun find_label :: "string \<Rightarrow> string \<Rightarrow> string option" where
  "find_label label [] = match_label label []"
| "find_label label (c # cs) =
     (case match_label label (c # cs) of Some rest \<Rightarrow> Some rest | None \<Rightarrow> find_label label cs)"

definition spec_extract_one :: "string \<Rightarrow> string \<Rightarrow> string" where
  "spec_extract_one label text =
     (case find_label label text of Some rest \<Rightarrow> str_strip (lazy_group rest) | None \<Rightarrow> [])"

text \<open>A section of the rebuilt text: the header, a colon, a blank and the value.\<close>

definition section_paragraph :: "string \<times> string \<Rightarrow> string" where
  "section_paragraph p = fst p @ '': '' @ snd p"

text \<open>A text with no white space at either end.\<close>

definition trimmed :: "string \<Rightarrow> bool" where
  "trimmed v = (v = [] \<or> (\<not> is_space (hd v) \<and> \<not> is_space (last v)))"

text \<open>The label stands somewhere in the text.\<close>

definition label_occurs :: "string \<Rightarrow> string \<Rightarrow> bool" where
  "label_occurs label text = list_ex (label_at label text) [0..<Suc (length text)]"

text \<open>No label stands at a position of \<open>u\<close> in the text \<open>u @ s\<close>.\<close>

definition starts_no_label :: "string \<Rightarrow> string \<Rightarrow> string \<Rightarrow> bool" where
  "starts_no_label label u s = (\<forall>q<length u. \<not> label_at label (u @ s) q)"

text \<open>What the proofs use of the eight labels: a label is not empty, holds no newline,
  has its only colon at the end and does not begin with a blank.\<close>

definition plain_label :: "string \<Rightarrow> bool" where
  "plain_label label =
     (label \<noteq> [] \<and> to_lower nl \<notin> set (map to_lower label) \<and>
      to_lower CHR '':'' \<notin> set (map to_lower (butlast label)) \<and>
      to_lower CHR '' '' \<noteq> to_lower (hd label))"

text \<open>No value of a section holds one of the eight labels.\<close>

definition no_nested_labels :: "sections \<Rightarrow> bool" where
  "no_nested_labels e =
     list_all (\<lambda>label. list_all (\<lambda>field. \<not> label_occurs label (field e)) (map snd section_labels))
       (map fst section_labels)"

text \<open>
  The sections for which extracting from the rebuilt text gives the sections back: no
  nested labels, MEDICATION\_ADM empty (its header in the rebuilt text is not the label
  that is searched for), and every section but MEDICATION\_ADM and the last one not
  empty (the white space after the header of an empty section runs into the next header).
\<close>

definition stable_sections :: "sections \<Rightarrow> bool" where
  "stable_sections e =
     (no_nested_labels e \<and> CHIEF_COMPLAINT e \<noteq> [] \<and> PRESENT_ILLNESS e \<noteq> [] \<and>
      MEDICAL_HISTORY e \<noteq> [] \<and> MEDICATION_ADM e = [] \<and> ALLERGIES e \<noteq> [] \<and>
      PHYSICAL_EXAM e \<noteq> [] \<and> FAMILY_HISTORY e \<noteq> [])"

section \<open>Example tables\<close>

definition example_admissions :: "admission list" where
  "example_admissions =
     [\<lparr> adm_HADM_ID = Some 1, ADMISSION_TYPE = Some ''EMERGENCY'' \<rparr>,
      \<lparr> adm_HADM_ID = Some 2, ADMISSION_TYPE = Some ''NEWBORN'' \<rparr>,
      \<lparr> adm_HADM_ID = Some 3, ADMISSION_TYPE = None \<rparr>]"

definition example_notes :: "note_row list" where
  "example_notes =
     [\<lparr> ROW_ID = 11, SUBJECT_ID = Some 100, HADM_ID = Some 1, CHARTDATE = Some ''2021-01-03'',
        CATEGORY = Some ''Discharge summary'', DESCRIPTION = Some ''Addendum'', TEXT = Some ''B'' \<rparr>,
      \<lparr> ROW_ID = 10, SUBJECT_ID = Some 100, HADM_ID = Some 1, CHARTDATE = Some ''2021-01-01'',
        CATEGORY = Some ''Discharge summary'', DESCRIPTION = Some ''Report'', TEXT = Some ''A'' \<rparr>,
      \<lparr> ROW_ID = 20, SUBJECT_ID = Some 200, HADM_ID = Some 2, CHARTDATE = Some ''2021-02-01'',
        CATEGORY = Some ''Discharge summary'', DESCRIPTION = Some ''Report'', TEXT = Some ''N'' \<rparr>,
      \<lparr> ROW_ID = 30, SUBJECT_ID = Some 300, HADM_ID = Some 3, CHARTDATE = Some ''2021-03-01'',
        CATEGORY = Some ''Discharge summary'', DESCRIPTION = Some ''Report'', TEXT = Some ''C'' \<rparr>]"

text \<open>What \<open>filter_notes\<close> returns for the two tables above when the full text is kept.\<close>

definition example_filtered :: "cnote list" where
  "example_filtered =
     [\<lparr> c_HADM_ID = 1, c_TEXT = ''A\<newline>\<newline>B'', c_ROW_ID = 10, c_SUBJECT_ID = Some 100,
        c_CHARTDATE = Some ''2021-01-01'', c_extracted = None \<rparr>,
      \<lparr> c_HADM_ID = 3, c_TEXT = ''C'', c_ROW_ID = 30, c_SUBJECT_ID = Some 300,
        c_CHARTDATE = Some ''2021-03-01'', c_extracted = None \<rparr>]"

text \<open>An admission table that lists HADM\_ID 2 twice, once as a newborn admission.\<close>

definition example_admissions_twice :: "admission list" where
  "example_admissions_twice =
     [\<lparr> adm_HADM_ID = Some 2, ADMISSION_TYPE = Some ''NEWBORN'' \<rparr>,
      \<lparr> adm_HADM_ID = Some 2, ADMISSION_TYPE = Some ''EMERGENCY'' \<rparr>]"



definition example_consolidated :: "cnote list" where
  "example_consolidated =
     [\<lparr> c_HADM_ID = 1, c_TEXT = ''Chief Complaint: Chest pain\<newline>\<newline>Present Illness: ...'',
        c_ROW_ID = 10, c_SUBJECT_ID = Some 100, c_CHARTDATE = Some ''2021-01-01'', c_extracted = None \<rparr>,
      \<lparr> c_HADM_ID = 3, c_TEXT = ''Patient seen and discharged.'',
        c_ROW_ID = 30, c_SUBJECT_ID = Some 300, c_CHARTDATE = Some ''2021-03-01'', c_extracted = None \<rparr>]"

text \<open>A generator for the examples: it draws the positions in ascending order for an
  even seed and in descending order for an odd one.\<close>

definition example_rng :: "int \<Rightarrow> nat \<Rightarrow> nat list" where
  "example_rng seed n = (if even seed then [0..<n] else rev [0..<n])"

definition example_data_split :: "split_name \<Rightarrow> int option list" where
  "example_data_split s = (case s of Train \<Rightarrow> [Some 100, Some 101] | Val \<Rightarrow> [Some 200] | Test \<Rightarrow> [Some 300])"

definition example_labelled :: "labelled_row list" where
  "example_labelled =
     [\<lparr> l_HADM_ID = Some 1, l_SUBJECT_ID = Some 100, l_TEXT = ''a'', l_LABEL = ''0'' \<rparr>,
      \<lparr> l_HADM_ID = Some 2, l_SUBJECT_ID = Some 200, l_TEXT = ''b'', l_LABEL = ''1'' \<rparr>,
      \<lparr> l_HADM_ID = Some 3, l_SUBJECT_ID = Some 100, l_TEXT = ''c'', l_LABEL = ''1'' \<rparr>,
      \<lparr> l_HADM_ID = Some 4, l_SUBJECT_ID = Some 999, l_TEXT = ''d'', l_LABEL = ''0'' \<rparr>]"

text \<open>A conversion for the examples: the value in two's complement of 64 bits.\<close>

definition example_cast :: "int \<Rightarrow> int" where
  "example_cast h = (h + 2 ^ 63) mod 2 ^ 64 - 2 ^ 63"

definition example_keyed :: "keyed_row list" where
  "example_keyed =
     [\<lparr> ID = 1, k_SUBJECT_ID = Some 100, k_TEXT = ''a'', k_LABEL = ''0'' \<rparr>,
      \<lparr> ID = 2, k_SUBJECT_ID = Some 200, k_TEXT = ''b'', k_LABEL = ''1'' \<rparr>,
      \<lparr> ID = 3, k_SUBJECT_ID = Some 100, k_TEXT = ''c'', k_LABEL = ''1'' \<rparr>,
      \<lparr> ID = 4, k_SUBJECT_ID = Some 999, k_TEXT = ''d'', k_LABEL = ''0'' \<rparr>]"


definition example_stable_text :: string where
  "example_stable_text =
     ''Chief Complaint: pain\<newline>\<newline>Present Illness: cough\<newline>\<newline>Medical History: asthma\<newline>\<newline>Allergies: none\<newline>\<newline>Physical Exam: normal\<newline>\<newline>Family History: none\<newline>\<newline>Social History: alone''"

definition example_unstable_text :: string where
  "example_unstable_text = ''Chief Complaint: Chest pain\<newline>\<newline>Allergies: none''"

section \<open>Facts about the steps of filter\_notes\<close>

lemma set_drop_duplicates_last: "set (drop_duplicates_last f xs) \<subseteq> set xs"
  by (induction xs) auto

lemma image_drop_duplicates_last: "f ` set (drop_duplicates_last f xs) = f ` set xs"
  by (induction xs) auto

lemma distinct_drop_duplicates_last: "distinct (map f (drop_duplicates_last f xs))"
proof (induction xs)
  case Nil
  show ?case by simp
next
  case (Cons x xs)
  have "f x \<notin> f ` set xs \<Longrightarrow> f x \<notin> f ` set (drop_duplicates_last f xs)"
    by (simp add: image_drop_duplicates_last)
  with Cons show ?case by simp
qed


lemma sorted_wrt_drop_duplicates_last:
  "sorted_wrt R xs \<Longrightarrow> sorted_wrt R (drop_duplicates_last f xs)"
proof (induction xs)
  case Nil
  show ?case by simp
next
  case (Cons x xs)
  have "set (drop_duplicates_last f xs) \<subseteq> set xs"
    by (rule set_drop_duplicates_last)
  with Cons.prems have "\<forall>y \<in> set (drop_duplicates_last f xs). R x y"
    by auto
  moreover have "sorted_wrt R (drop_duplicates_last f xs)"
    using Cons by simp
  ultimately show ?case by simp
qed

lemma set_merge_inner:
  "r \<in> set (merge_inner left right) \<longleftrightarrow>
     (\<exists>h t n. (h, t) \<in> set left \<and> n \<in> set right \<and> HADM_ID n = Some h \<and>
        r = \<lparr> c_HADM_ID = h, c_TEXT = t, c_ROW_ID = ROW_ID n, c_SUBJECT_ID = SUBJECT_ID n,
              c_CHARTDATE = CHARTDATE n, c_extracted = None \<rparr>)"
  by (auto simp: merge_inner_def)

lemma length_filter_distinct_map:
  "distinct (map f xs) \<Longrightarrow> length (filter (\<lambda>r. f r = k) xs) \<le> 1"
  by (induction xs) (auto simp: filter_empty_conv image_iff)


section \<open>Facts about a sort by CHARTDATE\<close>


lemma sorts_by_CHARTDATE_mset: "sorts_by_CHARTDATE sort_values \<Longrightarrow> mset (sort_values df) = mset df"
  by (simp add: sorts_by_CHARTDATE_def)

lemma sorts_by_CHARTDATE_set: "sorts_by_CHARTDATE sort_values \<Longrightarrow> set (sort_values df) = set df"
  by (rule mset_eq_setD) (rule sorts_by_CHARTDATE_mset)

lemma sorts_by_CHARTDATE_sorted:
  "sorts_by_CHARTDATE sort_values \<Longrightarrow> sorted_wrt chart_le (sort_values df)"
  by (simp add: sorts_by_CHARTDATE_def)

lemma sorts_by_CHARTDATE_single: "sorts_by_CHARTDATE sort_values \<Longrightarrow> sort_values [n] = [n]"
  using sorts_by_CHARTDATE_mset [of sort_values "[n]"] by simp

lemma sorts_by_CHARTDATE_empty: "sorts_by_CHARTDATE sort_values \<Longrightarrow> sort_values [] = []"
  using sorts_by_CHARTDATE_mset [of sort_values "[]"] by simp

lemma mset_stable_sort_values: "mset (stable_sort_values df) = mset df"
  by (simp add: stable_sort_values_def)

lemma sorted_wrt_stable_sort_values: "sorted_wrt chart_le (stable_sort_values df)"
proof -
  let ?dated = "filter (\<lambda>n. CHARTDATE n \<noteq> None) df"
  let ?key = "\<lambda>n. the (CHARTDATE n)"
  have "sorted (map ?key (sort_key ?key ?dated))"
    by (rule sorted_sort_key)
  then have "sorted_wrt (\<lambda>a b. ?key a \<le> ?key b) (sort_key ?key ?dated)"
    by (simp add: sorted_map)
  then have dated: "sorted_wrt chart_le (sort_key ?key ?dated)"
    by (rule sorted_wrt_mono_rel [rotated]) (auto simp: chart_le_def)
  have undated: "sorted_wrt chart_le (filter (\<lambda>n. CHARTDATE n = None) df)"
    by (rule sorted_wrt_mono_rel [where P = "\<lambda>a b. True"]) (auto simp: chart_le_def sorted_wrt_iff_nth_less)
  show ?thesis
    unfolding stable_sort_values_def sorted_wrt_append
    using dated undated by (auto simp: chart_le_def)
qed

lemma sorts_by_CHARTDATE_stable: "sorts_by_CHARTDATE stable_sort_values"
  by (simp add: sorts_by_CHARTDATE_def mset_stable_sort_values sorted_wrt_stable_sort_values)

lemma sorts_by_CHARTDATE_reversing: "sorts_by_CHARTDATE reversing_sort_values"
  by (simp add: sorts_by_CHARTDATE_def reversing_sort_values_def mset_stable_sort_values
      sorted_wrt_stable_sort_values)

text \<open>Where every row has a date and no two rows have the same, the order is fixed.\<close>

lemma sorted_by_date_unique:
  fixes xs ys :: "note_row list"
  assumes m: "mset xs = mset ys"
    and sx: "sorted_wrt chart_le xs" and sy: "sorted_wrt chart_le ys"
    and d: "distinct (map CHARTDATE xs)" and s: "None \<notin> CHARTDATE ` set xs"
  shows "xs = ys"
proof -
  define k where "k = (\<lambda>n::note_row. the (CHARTDATE n))"
  have sets: "set ys = set xs"
    by (rule mset_eq_setD [OF m [symmetric]])
  have le: "chart_le a b \<Longrightarrow> k a \<le> k b" if "a \<in> set xs" "b \<in> set xs" for a b
    using that s by (auto simp: chart_le_def k_def image_iff split: option.splits)
  have kx: "sorted (map k xs)"
    unfolding sorted_map using sx
    by (rule sorted_wrt_mono_rel [rotated]) (simp add: le)
  have ky: "sorted (map k ys)"
    unfolding sorted_map using sy
    by (rule sorted_wrt_mono_rel [rotated]) (simp add: le sets)
  have inj: "inj_on k (set xs)"
  proof (rule inj_onI)
    fix a b assume ab: "a \<in> set xs" "b \<in> set xs" "k a = k b"
    have "CHARTDATE n \<noteq> None" if "n \<in> set xs" for n
      using that s by force
    with ab(1,2) have "CHARTDATE a \<noteq> None" "CHARTDATE b \<noteq> None"
      by blast+
    with ab(3) have e: "CHARTDATE a = CHARTDATE b"
      by (cases "CHARTDATE a"; cases "CHARTDATE b") (simp_all add: k_def)
    have i: "inj_on CHARTDATE (set xs)"
      using d by (simp add: distinct_map)
    show "a = b"
      by (rule inj_onD [OF i e ab(1) ab(2)])
  qed
  have dx: "distinct (map k xs)"
    using d inj by (simp add: distinct_map)
  have mk: "mset (map k ys) = mset (map k xs)"
    using m by simp
  have dy: "distinct (map k ys)"
    using dx by (simp only: mset_eq_imp_distinct_iff [OF mk])
  have "set (map k xs) = set (map k ys)"
    by (simp add: sets)
  then have "map k xs = map k ys"
    by (rule sorted_distinct_set_unique [OF kx dx ky dy])
  moreover have "inj_on k (set xs \<union> set ys)"
    using inj by (simp add: sets)
  ultimately show ?thesis
    by (rule map_inj_on)
qed

lemma sorts_by_CHARTDATE_unique:
  assumes "sorts_by_CHARTDATE sort_values"
    and "distinct (map CHARTDATE df)" and "None \<notin> CHARTDATE ` set df"
  shows "sort_values df = stable_sort_values df"
proof (rule sorted_by_date_unique)
  show "mset (sort_values df) = mset (stable_sort_values df)"
    using assms(1) by (simp add: sorts_by_CHARTDATE_mset mset_stable_sort_values)
  show "sorted_wrt chart_le (sort_values df)"
    using assms(1) by (rule sorts_by_CHARTDATE_sorted)
  show "sorted_wrt chart_le (stable_sort_values df)"
    by (rule sorted_wrt_stable_sort_values)
  have mc: "mset (map CHARTDATE (sort_values df)) = mset (map CHARTDATE df)"
    using assms(1) by (simp add: sorts_by_CHARTDATE_mset)
  show "distinct (map CHARTDATE (sort_values df))"
    using assms(2) by (simp only: mset_eq_imp_distinct_iff [OF mc])
  show "None \<notin> CHARTDATE ` set (sort_values df)"
    using assms(1,3) by (simp add: sorts_by_CHARTDATE_set)
qed

section \<open>Facts about the rows that reach the merge\<close>

lemma set_discharge_summaries:
  "n \<in> set (discharge_summaries notes_df admissions_df) \<longleftrightarrow>
     n \<in> set (notes_of_grownups notes_df admissions_df) \<and> TEXT n \<noteq> None \<and> HADM_ID n \<noteq> None
     \<and> CATEGORY n = Some ''Discharge summary''"
  by (auto simp: discharge_summaries_def Let_def)

lemma set_surviving_notes:
  assumes "sorts_by_CHARTDATE sort_values"
    and "n \<in> set (surviving_notes sort_values notes_df admissions_df)"
  shows "n \<in> set (discharge_summaries notes_df admissions_df)"
proof -
  have "set (surviving_notes sort_values notes_df admissions_df)
      \<subseteq> set (sort_values (discharge_summaries notes_df admissions_df))"
    unfolding surviving_notes_def by (rule set_drop_duplicates_last)
  with assms(2) show ?thesis
    by (auto simp: sorts_by_CHARTDATE_set [OF assms(1)])
qed

lemma sorted_wrt_surviving_notes:
  "sorts_by_CHARTDATE sort_values \<Longrightarrow>
     sorted_wrt chart_le (surviving_notes sort_values notes_df admissions_df)"
  unfolding surviving_notes_def
  by (intro sorted_wrt_drop_duplicates_last sorts_by_CHARTDATE_sorted)

section \<open>Facts about the consolidated table\<close>

lemma distinct_merge_inner:
  "distinct (map fst left) \<Longrightarrow> distinct (map HADM_ID right) \<Longrightarrow>
     distinct (map c_HADM_ID (merge_inner left right))"
proof (induction left)
  case Nil
  show ?case by (simp add: merge_inner_def)
next
  case (Cons p left)
  obtain h t where p: "p = (h, t)" by (cases p)
  let ?blk = "filter (\<lambda>r. HADM_ID r = Some h) right"
  have len: "length ?blk \<le> 1"
    using Cons.prems(2) by (rule length_filter_distinct_map)
  have split: "merge_inner (p # left) right =
      map (\<lambda>r. \<lparr> c_HADM_ID = h, c_TEXT = t, c_ROW_ID = ROW_ID r, c_SUBJECT_ID = SUBJECT_ID r,
                  c_CHARTDATE = CHARTDATE r, c_extracted = None \<rparr>) ?blk @ merge_inner left right"
    by (simp add: merge_inner_def p)
  have blk: "distinct (map c_HADM_ID (map (\<lambda>r. \<lparr> c_HADM_ID = h, c_TEXT = t, c_ROW_ID = ROW_ID r,
      c_SUBJECT_ID = SUBJECT_ID r, c_CHARTDATE = CHARTDATE r, c_extracted = None \<rparr>) ?blk))"
    using len by (cases ?blk) (auto simp: Suc_le_eq)
  have rest: "distinct (map c_HADM_ID (merge_inner left right))"
    using Cons by simp
  have fresh: "h \<notin> c_HADM_ID ` set (merge_inner left right)"
    using Cons.prems(1) by (force simp: p set_merge_inner)
  show ?case
    unfolding split using blk rest fresh by (auto simp: comp_def)
qed

lemma distinct_consolidated:
  "distinct (map c_HADM_ID (consolidated sort_values notes_df admissions_df))"
proof -
  define df where "df = surviving_notes sort_values notes_df admissions_df"
  define merged where "merged = merge_inner (combined_adm_texts df) (report_rows df)"
  have c: "consolidated sort_values notes_df admissions_df =
      filter (\<lambda>r. c_SUBJECT_ID r \<noteq> None) (map (\<lambda>r. r\<lparr>c_TEXT := str_strip (c_TEXT r)\<rparr>) merged)"
    by (simp add: consolidated_def Let_def merged_def df_def)
  have "distinct (map fst (combined_adm_texts df))"
    by (simp add: combined_adm_texts_def comp_def)
  moreover have "distinct (map HADM_ID (report_rows df))"
    by (simp add: report_rows_def distinct_drop_duplicates_last)
  ultimately have "distinct (map c_HADM_ID merged)"
    unfolding merged_def by (rule distinct_merge_inner)
  then have "distinct (map c_HADM_ID (map (\<lambda>r. r\<lparr>c_TEXT := str_strip (c_TEXT r)\<rparr>) merged))"
    by (simp add: comp_def)
  then show ?thesis
    unfolding c by (rule distinct_map_filter)
qed

lemma consolidated_merged:
  assumes "r \<in> set (consolidated sort_values notes_df admissions_df)"
  obtains m where
    "m \<in> set (merge_inner (combined_adm_texts (surviving_notes sort_values notes_df admissions_df))
        (report_rows (surviving_notes sort_values notes_df admissions_df)))"
    and "r = m\<lparr>c_TEXT := str_strip (c_TEXT m)\<rparr>"
  using assms by (auto simp: consolidated_def Let_def)

lemma consolidated_has_report:
  assumes "r \<in> set (consolidated sort_values notes_df admissions_df)"
  shows "\<exists>n \<in> set (surviving_notes sort_values notes_df admissions_df).
           HADM_ID n = Some (c_HADM_ID r) \<and> DESCRIPTION n = Some ''Report''"
proof -
  define df where "df = surviving_notes sort_values notes_df admissions_df"
  from assms obtain m where m: "m \<in> set (merge_inner (combined_adm_texts df) (report_rows df))"
    and r: "r = m\<lparr>c_TEXT := str_strip (c_TEXT m)\<rparr>"
    unfolding df_def by (rule consolidated_merged)
  from m obtain n where n: "n \<in> set (report_rows df)" "HADM_ID n = Some (c_HADM_ID m)"
    unfolding set_merge_inner by auto
  have "set (report_rows df) \<subseteq> set (filter (\<lambda>n. DESCRIPTION n = Some ''Report'') df)"
    unfolding report_rows_def by (rule set_drop_duplicates_last)
  with n(1) have "n \<in> set df" "DESCRIPTION n = Some ''Report''"
    by auto
  with n(2) r show ?thesis
    unfolding df_def by auto
qed

lemma consolidated_text:
  assumes "r \<in> set (consolidated sort_values notes_df admissions_df)"
  shows "c_TEXT r = str_strip (str_join [nl, nl] (List.map_filter TEXT
           (filter (\<lambda>n. HADM_ID n = Some (c_HADM_ID r))
              (surviving_notes sort_values notes_df admissions_df))))"
proof -
  define df where "df = surviving_notes sort_values notes_df admissions_df"
  from assms obtain m where m: "m \<in> set (merge_inner (combined_adm_texts df) (report_rows df))"
    and r: "r = m\<lparr>c_TEXT := str_strip (c_TEXT m)\<rparr>"
    unfolding df_def by (rule consolidated_merged)
  from m obtain h t where ht: "(h, t) \<in> set (combined_adm_texts df)" "c_HADM_ID m = h" "c_TEXT m = t"
    unfolding set_merge_inner by auto
  from ht(1) have "t = str_join [nl, nl] (List.map_filter TEXT (filter (\<lambda>n. HADM_ID n = Some h) df))"
    by (auto simp: combined_adm_texts_def)
  with ht(2,3) r show ?thesis
    by (simp add: df_def)
qed

section \<open>Facts about filter\_admission\_text and the branch of filter\_notes\<close>

lemma filter_admission_text_eq:
  "filter_admission_text df =
     (if df = [] then Inl AttributeError
      else Inr (map (\<lambda>r. r\<lparr>c_extracted := Some (extract_sections (c_TEXT r)),
                           c_TEXT := admission_text (extract_sections (c_TEXT r))\<rparr>)
             (filter (\<lambda>r. has_main_information (extract_sections (c_TEXT r))) df)))"
proof -
  have "map (\<lambda>r. case c_extracted r of Some e \<Rightarrow> r\<lparr>c_TEXT := admission_text e\<rparr> | None \<Rightarrow> r)
          (filter (\<lambda>r. case c_extracted r of Some e \<Rightarrow> has_main_information e | None \<Rightarrow> False)
             (map (\<lambda>r. r\<lparr>c_extracted := Some (extract_sections (c_TEXT r))\<rparr>) xs)) =
        map (\<lambda>r. r\<lparr>c_extracted := Some (extract_sections (c_TEXT r)),
                   c_TEXT := admission_text (extract_sections (c_TEXT r))\<rparr>)
          (filter (\<lambda>r. has_main_information (extract_sections (c_TEXT r))) xs)"
    for xs :: "cnote list"
    by (induction xs) simp_all
  then show ?thesis
    by (simp add: filter_admission_text_def Let_def)
qed

lemma filter_notes_False:
  "filter_notes sort_values notes_df admissions_df False =
     Inr (consolidated sort_values notes_df admissions_df)"
  by (simp add: filter_notes_def Let_def)

lemma filter_notes_True:
  "filter_notes sort_values notes_df admissions_df True =
     filter_admission_text (consolidated sort_values notes_df admissions_df)"
  by (simp add: filter_notes_def Let_def)

lemma filter_notes_Inl:
  assumes "filter_notes sort_values notes_df admissions_df b = Inl e"
  shows "e = AttributeError \<and> b \<and> consolidated sort_values notes_df admissions_df = []"
  using assms
  by (cases b) (simp_all add: filter_notes_False filter_notes_True filter_admission_text_eq
      split: if_splits)

lemma filter_notes_Inr:
  assumes "filter_notes sort_values notes_df admissions_df b = Inr out"
  shows "\<exists>P. map c_HADM_ID out = map c_HADM_ID (filter P (consolidated sort_values notes_df admissions_df))"
proof (cases b)
  case False
  with assms have "out = consolidated sort_values notes_df admissions_df"
    by (simp add: filter_notes_False)
  then have "map c_HADM_ID out =
      map c_HADM_ID (filter (\<lambda>r. True) (consolidated sort_values notes_df admissions_df))"
    by simp
  then show ?thesis
    by (rule exI [where x = "\<lambda>r. True"])
next
  case True
  with assms have "map c_HADM_ID out =
      map c_HADM_ID (filter (\<lambda>r. has_main_information (extract_sections (c_TEXT r)))
        (consolidated sort_values notes_df admissions_df))"
    by (auto simp: filter_notes_True filter_admission_text_eq comp_def split: if_splits)
  then show ?thesis
    by (rule exI [where x = "\<lambda>r. has_main_information (extract_sections (c_TEXT r))"])
qed

lemma filter_notes_distinct:
  assumes "filter_notes sort_values notes_df admissions_df b = Inr out"
  shows "distinct (map c_HADM_ID out)"
proof -
  from assms obtain P where
    P: "map c_HADM_ID out = map c_HADM_ID (filter P (consolidated sort_values notes_df admissions_df))"
    using filter_notes_Inr by blast
  show ?thesis
    unfolding P using distinct_consolidated by (rule distinct_map_filter)
qed

lemma filter_notes_HADM_ID:
  assumes "filter_notes sort_values notes_df admissions_df b = Inr out" and "r \<in> set out"
  shows "c_HADM_ID r \<in> c_HADM_ID ` set (consolidated sort_values notes_df admissions_df)"
proof -
  from assms(1) obtain P where
    P: "map c_HADM_ID out = map c_HADM_ID (filter P (consolidated sort_values notes_df admissions_df))"
    using filter_notes_Inr by blast
  have "c_HADM_ID r \<in> set (map c_HADM_ID out)"
    using assms(2) by simp
  then show ?thesis
    unfolding P by auto
qed

lemma filter_notes_has_report:
  assumes "sorts_by_CHARTDATE sort_values"
    and "filter_notes sort_values notes_df admissions_df b = Inr out" and "r \<in> set out"
  shows "\<exists>n \<in> set (discharge_summaries notes_df admissions_df).
           HADM_ID n = Some (c_HADM_ID r) \<and> DESCRIPTION n = Some ''Report''"
proof -
  have "c_HADM_ID r \<in> c_HADM_ID ` set (consolidated sort_values notes_df admissions_df)"
    using assms(2,3) by (rule filter_notes_HADM_ID)
  then obtain c where c: "c \<in> set (consolidated sort_values notes_df admissions_df)"
    and eq: "c_HADM_ID r = c_HADM_ID c"
    by (rule imageE)
  from consolidated_has_report [OF c] obtain n where
    n: "n \<in> set (surviving_notes sort_values notes_df admissions_df)"
    "HADM_ID n = Some (c_HADM_ID c)" "DESCRIPTION n = Some ''Report''"
    by blast
  from assms(1) n(1) have "n \<in> set (discharge_summaries notes_df admissions_df)"
    by (rule set_surviving_notes)
  with n(2,3) eq show ?thesis
    by auto
qed

section \<open>The example tables\<close>

lemma example_discharge_summaries:
  "discharge_summaries example_notes example_admissions =
     [example_notes ! 0, example_notes ! 1, example_notes ! 3]"
  by (simp add: discharge_summaries_def notes_of_grownups_def adm_grownups_def example_notes_def
      example_admissions_def)

lemma example_sorted:
  assumes "sorts_by_CHARTDATE sort_values"
  shows "sort_values (discharge_summaries example_notes example_admissions) =
     [example_notes ! 1, example_notes ! 0, example_notes ! 3]"
proof -
  have "sort_values (discharge_summaries example_notes example_admissions) =
      stable_sort_values (discharge_summaries example_notes example_admissions)"
    using assms unfolding example_discharge_summaries
    by (rule sorts_by_CHARTDATE_unique) (simp_all add: example_notes_def)
  also have "\<dots> = [example_notes ! 1, example_notes ! 0, example_notes ! 3]"
    unfolding example_discharge_summaries by (simp add: example_notes_def stable_sort_values_def)
  finally show ?thesis .
qed

lemma example_surviving_notes:
  assumes "sorts_by_CHARTDATE sort_values"
  shows "surviving_notes sort_values example_notes example_admissions =
     [example_notes ! 1, example_notes ! 0, example_notes ! 3]"
  unfolding surviving_notes_def example_sorted [OF assms]
  by (simp add: example_notes_def)

lemma example_consolidated_rows:
  assumes "sorts_by_CHARTDATE sort_values"
  shows "consolidated sort_values example_notes example_admissions = example_filtered"
  unfolding consolidated_def example_surviving_notes [OF assms]
  by (simp add: example_notes_def example_filtered_def combined_adm_texts_def report_rows_def
      merge_inner_def List.map_filter_def str_strip_def is_space_def nl_def)

lemma example_filter_notes:
  assumes "sorts_by_CHARTDATE sort_values"
  shows "filter_notes sort_values example_notes example_admissions False = Inr example_filtered"
  by (simp add: filter_notes_False example_consolidated_rows [OF assms])

lemma example_twice_discharge_summaries:
  "discharge_summaries example_notes example_admissions_twice = [example_notes ! 2]"
  by (simp add: discharge_summaries_def notes_of_grownups_def adm_grownups_def example_notes_def
      example_admissions_twice_def)

lemma example_twice_filter_notes:
  assumes "sorts_by_CHARTDATE sort_values"
  shows "filter_notes sort_values example_notes example_admissions_twice False =
     Inr [\<lparr> c_HADM_ID = 2, c_TEXT = ''N'', c_ROW_ID = 20, c_SUBJECT_ID = Some 200,
            c_CHARTDATE = Some ''2021-02-01'', c_extracted = None \<rparr>]"
  unfolding filter_notes_False consolidated_def surviving_notes_def example_twice_discharge_summaries
    sorts_by_CHARTDATE_single [OF assms]
  by (simp add: example_notes_def combined_adm_texts_def report_rows_def
      merge_inner_def List.map_filter_def str_strip_def is_space_def nl_def)

section \<open>Properties of filter\_notes\<close>

text \<open>
  Claim C2. Let \<open>sort_values\<close> sort by CHARTDATE. In both modes, a table that
  \<open>filter_notes\<close> returns has no two rows with the same HADM\_ID, and every HADM\_ID in
  it is the HADM\_ID of a row of the note table whose DESCRIPTION is \<open>Report\<close>: an
  admission with addenda only does not get through the inner join. \<open>filter_notes\<close>
  returns no table only in the mode that reduces the text, with AttributeError, when the
  consolidated table has no row.
\<close>

theorem consolidated_one_row_per_admission:
  assumes "sorts_by_CHARTDATE sort_values"
  shows "(case filter_notes sort_values notes_df admissions_df admission_text_only of
            Inl e \<Rightarrow> e = AttributeError \<and> admission_text_only \<and>
                     consolidated sort_values notes_df admissions_df = []
          | Inr out \<Rightarrow>
              distinct (map c_HADM_ID out) \<and>
              (\<forall>r \<in> set out. \<exists>n \<in> set notes_df.
                 HADM_ID n = Some (c_HADM_ID r) \<and> DESCRIPTION n = Some ''Report''))"
proof (cases "filter_notes sort_values notes_df admissions_df admission_text_only")
  case (Inl e)
  then have "e = AttributeError \<and> admission_text_only \<and>
      consolidated sort_values notes_df admissions_df = []"
    by (rule filter_notes_Inl)
  with Inl show ?thesis by simp
next
  case (Inr out)
  have d: "distinct (map c_HADM_ID out)"
    using Inr by (rule filter_notes_distinct)
  have "\<exists>n \<in> set notes_df. HADM_ID n = Some (c_HADM_ID r) \<and> DESCRIPTION n = Some ''Report''"
    if "r \<in> set out" for r
  proof -
    from assms Inr that obtain n where n: "n \<in> set (discharge_summaries notes_df admissions_df)"
      "HADM_ID n = Some (c_HADM_ID r)" "DESCRIPTION n = Some ''Report''"
      using filter_notes_has_report by blast
    from n(1) have "n \<in> set notes_df"
      by (simp add: set_discharge_summaries notes_of_grownups_def)
    with n(2,3) show ?thesis by blast
  qed
  with d Inr show ?thesis by simp
qed

theorem consolidated_one_row_per_admission_witness:
  "sorts_by_CHARTDATE stable_sort_values \<and>
   filter_notes stable_sort_values example_notes example_admissions False = Inr example_filtered \<and>
   map c_HADM_ID example_filtered = [1, 3] \<and>
   distinct (map c_HADM_ID example_filtered) \<and>
   list_all (\<lambda>r. \<exists>n \<in> set example_notes. HADM_ID n = Some (c_HADM_ID r) \<and> DESCRIPTION n = Some ''Report'')
     example_filtered \<and>
   map (\<lambda>n. (HADM_ID n, DESCRIPTION n)) example_notes =
     [(Some 1, Some ''Addendum''), (Some 1, Some ''Report''), (Some 2, Some ''Report''),
      (Some 3, Some ''Report'')]"
proof -
  note inst = consolidated_one_row_per_admission [OF sorts_by_CHARTDATE_stable,
      where notes_df = example_notes and admissions_df = example_admissions
        and admission_text_only = False,
      unfolded example_filter_notes [OF sorts_by_CHARTDATE_stable] sum.case]
  from inst have "distinct (map c_HADM_ID example_filtered)"
    by (rule conjunct1)
  moreover from inst have "list_all (\<lambda>r. \<exists>n \<in> set example_notes.
      HADM_ID n = Some (c_HADM_ID r) \<and> DESCRIPTION n = Some ''Report'') example_filtered"
    unfolding list_all_iff by (rule conjunct2)
  moreover have "map c_HADM_ID example_filtered = [1, 3]"
    by (simp add: example_filtered_def)
  moreover have "map (\<lambda>n. (HADM_ID n, DESCRIPTION n)) example_notes =
     [(Some 1, Some ''Addendum''), (Some 1, Some ''Report''), (Some 2, Some ''Report''),
      (Some 3, Some ''Report'')]"
    by (simp add: example_notes_def)
  ultimately show ?thesis
    using sorts_by_CHARTDATE_stable example_filter_notes [OF sorts_by_CHARTDATE_stable]
    by (intro conjI)
qed

text \<open>
  Claim C3, amended. Let \<open>sort_values\<close> sort by CHARTDATE. An admission of the admission
  table whose ADMISSION\_TYPE is \<open>NEWBORN\<close> has no row in a table that \<open>filter_notes\<close>
  returns, provided that no row of the admission table with the same HADM\_ID has another
  ADMISSION\_TYPE; this holds in particular where HADM\_ID is unique in the admission table.
\<close>

theorem newborn_admissions_excluded:
  assumes "sorts_by_CHARTDATE sort_values"
    and "a \<in> set admissions_df" and "ADMISSION_TYPE a = Some ''NEWBORN''"
    and "distinct (map adm_HADM_ID admissions_df) \<or>
         (\<forall>b \<in> set admissions_df. adm_HADM_ID b = adm_HADM_ID a \<longrightarrow> ADMISSION_TYPE b = Some ''NEWBORN'')"
    and "filter_notes sort_values notes_df admissions_df admission_text_only = Inr out"
  shows "\<forall>r \<in> set out. Some (c_HADM_ID r) \<noteq> adm_HADM_ID a"
proof
  fix r assume "r \<in> set out"
  with assms(1,5) obtain n where n: "n \<in> set (discharge_summaries notes_df admissions_df)"
    "HADM_ID n = Some (c_HADM_ID r)"
    using filter_notes_has_report by blast
  from n(1) have "HADM_ID n \<in> adm_HADM_ID ` set (adm_grownups admissions_df)"
    by (simp add: set_discharge_summaries notes_of_grownups_def)
  then obtain g where g: "g \<in> set admissions_df" "ADMISSION_TYPE g \<noteq> Some ''NEWBORN''"
    "adm_HADM_ID g = HADM_ID n"
    by (auto simp: adm_grownups_def)
  show "Some (c_HADM_ID r) \<noteq> adm_HADM_ID a"
  proof
    assume "Some (c_HADM_ID r) = adm_HADM_ID a"
    with g(3) n(2) have same: "adm_HADM_ID g = adm_HADM_ID a" by simp
    from assms(4) show False
    proof
      assume "distinct (map adm_HADM_ID admissions_df)"
      then have "inj_on adm_HADM_ID (set admissions_df)"
        by (simp add: distinct_map)
      then have "g = a"
        using same g(1) assms(2) by (rule inj_onD)
      with g(2) assms(3) show False by simp
    next
      assume "\<forall>b \<in> set admissions_df. adm_HADM_ID b = adm_HADM_ID a \<longrightarrow> ADMISSION_TYPE b = Some ''NEWBORN''"
      with g(1) same have "ADMISSION_TYPE g = Some ''NEWBORN''" by blast
      with g(2) show False by simp
    qed
  qed
qed

theorem newborn_admissions_excluded_witness:
  "sorts_by_CHARTDATE stable_sort_values \<and>
   \<lparr> adm_HADM_ID = Some 2, ADMISSION_TYPE = Some ''NEWBORN'' \<rparr> \<in> set example_admissions \<and>
   distinct (map adm_HADM_ID example_admissions) \<and>
   (\<exists>n \<in> set example_notes. HADM_ID n = Some 2) \<and>
   filter_notes stable_sort_values example_notes example_admissions False = Inr example_filtered \<and>
   map c_HADM_ID example_filtered = [1, 3] \<and>
   list_all (\<lambda>r. c_HADM_ID r \<noteq> 2) example_filtered"
proof -
  have a: "\<lparr> adm_HADM_ID = Some 2, ADMISSION_TYPE = Some ''NEWBORN'' \<rparr> \<in> set example_admissions"
    by (simp add: example_admissions_def)
  have d: "distinct (map adm_HADM_ID example_admissions)"
    by (simp add: example_admissions_def)
  have f: "filter_notes stable_sort_values example_notes example_admissions False = Inr example_filtered"
    using sorts_by_CHARTDATE_stable by (rule example_filter_notes)
  have "\<forall>r \<in> set example_filtered.
          Some (c_HADM_ID r) \<noteq> adm_HADM_ID \<lparr> adm_HADM_ID = Some 2, ADMISSION_TYPE = Some ''NEWBORN'' \<rparr>"
    using sorts_by_CHARTDATE_stable a _ disjI1 [OF d] f
    by (rule newborn_admissions_excluded) simp
  then have l: "list_all (\<lambda>r. c_HADM_ID r \<noteq> 2) example_filtered"
    by (simp add: list_all_iff)
  have n: "\<exists>n \<in> set example_notes. HADM_ID n = Some 2"
    by (simp add: example_notes_def)
  have m: "map c_HADM_ID example_filtered = [1, 3]"
    by (simp add: example_filtered_def)
  from sorts_by_CHARTDATE_stable a d n f m l show ?thesis
    by (intro conjI)
qed

text \<open>
  The claim as it stands does not hold: \<open>example_admissions_twice\<close> lists HADM\_ID 2 as
  a NEWBORN admission and as an EMERGENCY admission. The second row keeps HADM\_ID 2 in
  \<open>adm_grownups\<close>, so the note of HADM\_ID 2 passes line 27 and \<open>filter_notes\<close> returns
  a row for it. One row reaches the sort, so the order of the sort plays no part.
\<close>

theorem duplicate_admission_id_counterexample:
  "\<lparr> adm_HADM_ID = Some 2, ADMISSION_TYPE = Some ''NEWBORN'' \<rparr> \<in> set example_admissions_twice \<and>
   map (\<lambda>n. (ROW_ID n, HADM_ID n)) example_notes = [(11, Some 1), (10, Some 1), (20, Some 2), (30, Some 3)] \<and>
   filter_notes stable_sort_values example_notes example_admissions_twice False =
     Inr [\<lparr> c_HADM_ID = 2, c_TEXT = ''N'', c_ROW_ID = 20, c_SUBJECT_ID = Some 200,
            c_CHARTDATE = Some ''2021-02-01'', c_extracted = None \<rparr>] \<and>
   filter_notes reversing_sort_values example_notes example_admissions_twice False =
     Inr [\<lparr> c_HADM_ID = 2, c_TEXT = ''N'', c_ROW_ID = 20, c_SUBJECT_ID = Some 200,
            c_CHARTDATE = Some ''2021-02-01'', c_extracted = None \<rparr>]"
proof (intro conjI)
  show "\<lparr> adm_HADM_ID = Some 2, ADMISSION_TYPE = Some ''NEWBORN'' \<rparr> \<in> set example_admissions_twice"
    by (simp add: example_admissions_twice_def)
  show "map (\<lambda>n. (ROW_ID n, HADM_ID n)) example_notes = [(11, Some 1), (10, Some 1), (20, Some 2), (30, Some 3)]"
    by (simp add: example_notes_def)
  show "filter_notes stable_sort_values example_notes example_admissions_twice False =
     Inr [\<lparr> c_HADM_ID = 2, c_TEXT = ''N'', c_ROW_ID = 20, c_SUBJECT_ID = Some 200,
            c_CHARTDATE = Some ''2021-02-01'', c_extracted = None \<rparr>]"
    using sorts_by_CHARTDATE_stable by (rule example_twice_filter_notes)
  show "filter_notes reversing_sort_values example_notes example_admissions_twice False =
     Inr [\<lparr> c_HADM_ID = 2, c_TEXT = ''N'', c_ROW_ID = 20, c_SUBJECT_ID = Some 200,
            c_CHARTDATE = Some ''2021-02-01'', c_extracted = None \<rparr>]"
    using sorts_by_CHARTDATE_reversing by (rule example_twice_filter_notes)
qed

text \<open>
  Claim C10. An admission whose ADMISSION\_TYPE is missing is kept among
  \<open>adm_grownups\<close>, so every note that refers to it passes the newborn filter; a
  discharge summary report for it, alone in the note table, is the row that
  \<open>filter_notes\<close> returns, whatever the sort by CHARTDATE.
\<close>

theorem missing_admission_type_is_retained:
  assumes "sorts_by_CHARTDATE sort_values"
    and "a \<in> set admissions_df" and "ADMISSION_TYPE a = None"
    and "adm_HADM_ID a = Some h" and "HADM_ID n = Some h"
    and "TEXT n = Some t" and "CATEGORY n = Some ''Discharge summary''"
    and "DESCRIPTION n = Some ''Report''" and "SUBJECT_ID n \<noteq> None"
  shows "a \<in> set (adm_grownups admissions_df) \<and>
         (\<forall>m \<in> set notes_df. HADM_ID m = Some h \<longrightarrow> m \<in> set (notes_of_grownups notes_df admissions_df)) \<and>
         filter_notes sort_values [n] admissions_df False =
           Inr [\<lparr> c_HADM_ID = h, c_TEXT = str_strip t, c_ROW_ID = ROW_ID n, c_SUBJECT_ID = SUBJECT_ID n,
                  c_CHARTDATE = CHARTDATE n, c_extracted = None \<rparr>]"
proof (intro conjI ballI impI)
  show g: "a \<in> set (adm_grownups admissions_df)"
    using assms(2,3) by (simp add: adm_grownups_def)
  then have h: "Some h \<in> adm_HADM_ID ` set (adm_grownups admissions_df)"
    using assms(4) by force
  show "m \<in> set (notes_of_grownups notes_df admissions_df)"
    if "m \<in> set notes_df" "HADM_ID m = Some h" for m
    using that h by (simp add: notes_of_grownups_def)
  have "discharge_summaries [n] admissions_df = [n]"
    using h assms(5,6,7) by (simp add: discharge_summaries_def notes_of_grownups_def)
  then have s: "surviving_notes sort_values [n] admissions_df = [n]"
    by (simp add: surviving_notes_def sorts_by_CHARTDATE_single [OF assms(1)])
  show "filter_notes sort_values [n] admissions_df False =
           Inr [\<lparr> c_HADM_ID = h, c_TEXT = str_strip t, c_ROW_ID = ROW_ID n, c_SUBJECT_ID = SUBJECT_ID n,
                  c_CHARTDATE = CHARTDATE n, c_extracted = None \<rparr>]"
    using assms(5,6,8,9)
    by (simp add: filter_notes_False consolidated_def s combined_adm_texts_def report_rows_def
        merge_inner_def List.map_filter_def)
qed

theorem missing_admission_type_is_retained_witness:
  "sorts_by_CHARTDATE stable_sort_values \<and>
   \<lparr> adm_HADM_ID = Some 3, ADMISSION_TYPE = None \<rparr> \<in> set example_admissions \<and>
   filter_notes stable_sort_values [example_notes ! 3] example_admissions False =
     Inr [\<lparr> c_HADM_ID = 3, c_TEXT = ''C'', c_ROW_ID = 30, c_SUBJECT_ID = Some 300,
            c_CHARTDATE = Some ''2021-03-01'', c_extracted = None \<rparr>] \<and>
   example_notes ! 3 \<in> set (notes_of_grownups example_notes example_admissions)"
proof -
  have a: "\<lparr> adm_HADM_ID = Some 3, ADMISSION_TYPE = None \<rparr> \<in> set example_admissions"
    by (simp add: example_admissions_def)
  have m: "example_notes ! 3 \<in> set example_notes"
    by (simp add: example_notes_def)
  have "str_strip ''C'' = ''C''"
    by (simp add: str_strip_def is_space_def)
  then show ?thesis
    using a m sorts_by_CHARTDATE_stable
      missing_admission_type_is_retained [OF sorts_by_CHARTDATE_stable,
        where a = "\<lparr> adm_HADM_ID = Some 3, ADMISSION_TYPE = None \<rparr>"
          and admissions_df = example_admissions and h = 3 and n = "example_notes ! 3"
          and t = "''C''" and notes_df = example_notes]
    by (simp add: example_notes_def)
qed

text \<open>
  Claim C7. Let \<open>sort_values\<close> sort by CHARTDATE. The TEXT of every row of the
  consolidated table, which is what \<open>filter_notes\<close> returns when the full text is kept,
  is the texts of the surviving notes of its admission, joined with two newlines in the
  order of the sorted table, which is chronological by CHARTDATE, and then stripped. In the
  example tables the notes of admission 1 are dated 2021-01-03 with text B and 2021-01-01
  with text A, and its merged TEXT is A, two newlines, B.
\<close>

theorem texts_joined_in_chart_order:
  assumes "sorts_by_CHARTDATE sort_values"
  shows "filter_notes sort_values notes_df admissions_df False =
           Inr (consolidated sort_values notes_df admissions_df) \<and>
         (\<forall>r \<in> set (consolidated sort_values notes_df admissions_df).
            c_TEXT r = str_strip (str_join [nl, nl] (List.map_filter TEXT
              (filter (\<lambda>n. HADM_ID n = Some (c_HADM_ID r))
                 (surviving_notes sort_values notes_df admissions_df)))) \<and>
            sorted_wrt chart_le
              (filter (\<lambda>n. HADM_ID n = Some (c_HADM_ID r))
                 (surviving_notes sort_values notes_df admissions_df))) \<and>
         map (\<lambda>n. (HADM_ID n, CHARTDATE n, TEXT n)) example_notes =
           [(Some 1, Some ''2021-01-03'', Some ''B''), (Some 1, Some ''2021-01-01'', Some ''A''),
            (Some 2, Some ''2021-02-01'', Some ''N''), (Some 3, Some ''2021-03-01'', Some ''C'')] \<and>
         map (\<lambda>r. (c_HADM_ID r, c_TEXT r)) (consolidated sort_values example_notes example_admissions) =
           [(1, ''A\<newline>\<newline>B''), (3, ''C'')]"
proof (intro conjI ballI)
  show "filter_notes sort_values notes_df admissions_df False =
           Inr (consolidated sort_values notes_df admissions_df)"
    by (rule filter_notes_False)
next
  fix r assume r: "r \<in> set (consolidated sort_values notes_df admissions_df)"
  then show "c_TEXT r = str_strip (str_join [nl, nl] (List.map_filter TEXT
        (filter (\<lambda>n. HADM_ID n = Some (c_HADM_ID r))
           (surviving_notes sort_values notes_df admissions_df))))"
    by (rule consolidated_text)
  show "sorted_wrt chart_le
        (filter (\<lambda>n. HADM_ID n = Some (c_HADM_ID r))
           (surviving_notes sort_values notes_df admissions_df))"
    using assms by (intro sorted_wrt_filter sorted_wrt_surviving_notes)
next
  show "map (\<lambda>n. (HADM_ID n, CHARTDATE n, TEXT n)) example_notes =
     [(Some 1, Some ''2021-01-03'', Some ''B''), (Some 1, Some ''2021-01-01'', Some ''A''),
      (Some 2, Some ''2021-02-01'', Some ''N''), (Some 3, Some ''2021-03-01'', Some ''C'')]"
    by (simp add: example_notes_def)
next
  show "map (\<lambda>r. (c_HADM_ID r, c_TEXT r)) (consolidated sort_values example_notes example_admissions) =
     [(1, ''A\<newline>\<newline>B''), (3, ''C'')]"
    unfolding example_consolidated_rows [OF assms] by (simp add: example_filtered_def)
qed

theorem texts_joined_in_chart_order_witness:
  "sorts_by_CHARTDATE reversing_sort_values \<and>
   filter_notes reversing_sort_values example_notes example_admissions False = Inr example_filtered \<and>
   map (\<lambda>r. (c_HADM_ID r, c_TEXT r)) example_filtered = [(1, ''A\<newline>\<newline>B''), (3, ''C'')] \<and>
   str_strip (str_join [nl, nl] (List.map_filter TEXT
     (filter (\<lambda>n. HADM_ID n = Some 1) (surviving_notes reversing_sort_values example_notes example_admissions)))) =
     ''A\<newline>\<newline>B'' \<and>
   map CHARTDATE (filter (\<lambda>n. HADM_ID n = Some 1)
     (surviving_notes reversing_sort_values example_notes example_admissions)) =
     [Some ''2021-01-01'', Some ''2021-01-03''] \<and>
   sorted_wrt chart_le (filter (\<lambda>n. HADM_ID n = Some 1)
     (surviving_notes reversing_sort_values example_notes example_admissions))"
proof -
  let ?r = "\<lparr> c_HADM_ID = 1, c_TEXT = ''A\<newline>\<newline>B'', c_ROW_ID = 10, c_SUBJECT_ID = Some 100,
        c_CHARTDATE = Some ''2021-01-01'', c_extracted = None \<rparr>"
  note s = sorts_by_CHARTDATE_reversing
  note inst = texts_joined_in_chart_order [OF s, of example_notes example_admissions]
  have c: "consolidated reversing_sort_values example_notes example_admissions = example_filtered"
    using s by (rule example_consolidated_rows)
  have r: "?r \<in> set (consolidated reversing_sort_values example_notes example_admissions)"
    unfolding c by (simp add: example_filtered_def)
  have d: "map CHARTDATE (filter (\<lambda>n. HADM_ID n = Some 1)
      (surviving_notes reversing_sort_values example_notes example_admissions)) =
     [Some ''2021-01-01'', Some ''2021-01-03'']"
    unfolding example_surviving_notes [OF s] by (simp add: example_notes_def)
  from inst have f: "filter_notes reversing_sort_values example_notes example_admissions False =
      Inr example_filtered"
    unfolding c by (rule conjunct1)
  from inst have "\<forall>r \<in> set (consolidated reversing_sort_values example_notes example_admissions).
      c_TEXT r = str_strip (str_join [nl, nl] (List.map_filter TEXT
        (filter (\<lambda>n. HADM_ID n = Some (c_HADM_ID r))
           (surviving_notes reversing_sort_values example_notes example_admissions)))) \<and>
      sorted_wrt chart_le
        (filter (\<lambda>n. HADM_ID n = Some (c_HADM_ID r))
           (surviving_notes reversing_sort_values example_notes example_admissions))"
    by (rule conjunct1 [OF conjunct2])
  from bspec [OF this r] have
    t: "str_strip (str_join [nl, nl] (List.map_filter TEXT
        (filter (\<lambda>n. HADM_ID n = Some 1)
           (surviving_notes reversing_sort_values example_notes example_admissions)))) = ''A\<newline>\<newline>B''"
    and o: "sorted_wrt chart_le (filter (\<lambda>n. HADM_ID n = Some 1)
           (surviving_notes reversing_sort_values example_notes example_admissions))"
    by simp_all
  have m: "map (\<lambda>r. (c_HADM_ID r, c_TEXT r)) example_filtered = [(1, ''A\<newline>\<newline>B''), (3, ''C'')]"
    by (simp add: example_filtered_def)
  from s f m t d o show ?thesis
    by (intro conjI)
qed

section \<open>Duplicate removal\<close>












section \<open>Properties of filter\_admission\_text\<close>

lemma admission_text_join:
  "admission_text e = str_join [nl, nl] (map (\<lambda>(l, v). l @ '': '' @ v) (labelled_sections e))"
  by (simp add: admission_text_def labelled_sections_def)

lemma example_extract_sections:
  "extract_sections ''Chief Complaint: Chest pain\<newline>\<newline>Present Illness: ...'' =
     \<lparr> CHIEF_COMPLAINT = ''Chest pain'', PRESENT_ILLNESS = ''...'', MEDICAL_HISTORY = [],
       MEDICATION_ADM = [], ALLERGIES = [], PHYSICAL_EXAM = [], FAMILY_HISTORY = [],
       SOCIAL_HISTORY = [] \<rparr>"
  by code_simp

lemma example_no_sections:
  "extract_sections ''Patient seen and discharged.'' =
     \<lparr> CHIEF_COMPLAINT = [], PRESENT_ILLNESS = [], MEDICAL_HISTORY = [],
       MEDICATION_ADM = [], ALLERGIES = [], PHYSICAL_EXAM = [], FAMILY_HISTORY = [],
       SOCIAL_HISTORY = [] \<rparr>"
  by code_simp

text \<open>
  Claim C6. On a table with at least one row, \<open>filter_admission_text\<close> keeps the rows in
  which CHIEF\_COMPLAINT, PRESENT\_ILLNESS or MEDICAL\_HISTORY is not empty, and no other.
  In a row it keeps, TEXT becomes the eight sections in the order of section 3 of the
  specification, each as its header, a colon, a blank and the value, joined with two
  newlines; a section that was not found has its header with the empty value. The headers
  are in upper case. On a table with no row it raises AttributeError.
\<close>

theorem admission_text_reducer:
  "filter_admission_text df =
     (if df = [] then Inl AttributeError
      else Inr (map (\<lambda>r. r\<lparr>c_extracted := Some (extract_sections (c_TEXT r)),
                 c_TEXT := str_join [nl, nl]
                   (map (\<lambda>(l, v). l @ '': '' @ v) (labelled_sections (extract_sections (c_TEXT r))))\<rparr>)
         (filter (\<lambda>r. CHIEF_COMPLAINT (extract_sections (c_TEXT r)) \<noteq> [] \<or>
                      PRESENT_ILLNESS (extract_sections (c_TEXT r)) \<noteq> [] \<or>
                      MEDICAL_HISTORY (extract_sections (c_TEXT r)) \<noteq> []) df))) \<and>
   list_all (list_all is_upper_or_blank) (map fst (labelled_sections e)) \<and>
   map snd (labelled_sections e) =
     [CHIEF_COMPLAINT e, PRESENT_ILLNESS e, MEDICAL_HISTORY e, MEDICATION_ADM e,
      ALLERGIES e, PHYSICAL_EXAM e, FAMILY_HISTORY e, SOCIAL_HISTORY e]"
proof (intro conjI)
  show "filter_admission_text df =
     (if df = [] then Inl AttributeError
      else Inr (map (\<lambda>r. r\<lparr>c_extracted := Some (extract_sections (c_TEXT r)),
                 c_TEXT := str_join [nl, nl]
                   (map (\<lambda>(l, v). l @ '': '' @ v) (labelled_sections (extract_sections (c_TEXT r))))\<rparr>)
         (filter (\<lambda>r. CHIEF_COMPLAINT (extract_sections (c_TEXT r)) \<noteq> [] \<or>
                      PRESENT_ILLNESS (extract_sections (c_TEXT r)) \<noteq> [] \<or>
                      MEDICAL_HISTORY (extract_sections (c_TEXT r)) \<noteq> []) df)))"
    unfolding filter_admission_text_eq admission_text_join has_main_information_def ..
  show "list_all (list_all is_upper_or_blank) (map fst (labelled_sections e))"
    by (simp add: labelled_sections_def is_upper_or_blank_def)
  show "map snd (labelled_sections e) =
     [CHIEF_COMPLAINT e, PRESENT_ILLNESS e, MEDICAL_HISTORY e, MEDICATION_ADM e,
      ALLERGIES e, PHYSICAL_EXAM e, FAMILY_HISTORY e, SOCIAL_HISTORY e]"
    by (simp add: labelled_sections_def)
qed

theorem admission_text_reducer_witness:
  "map c_HADM_ID example_consolidated = [1, 3] \<and>
   map_sum id (map (\<lambda>r. (c_HADM_ID r, c_TEXT r))) (filter_admission_text example_consolidated) =
     Inr [(1, ''CHIEF COMPLAINT: Chest pain\<newline>\<newline>PRESENT ILLNESS: ...\<newline>\<newline>MEDICAL HISTORY: \<newline>\<newline>MEDICATION ON ADMISSION: \<newline>\<newline>ALLERGIES: \<newline>\<newline>PHYSICAL EXAM: \<newline>\<newline>FAMILY HISTORY: \<newline>\<newline>SOCIAL HISTORY: '')] \<and>
   filter_admission_text [] = Inl AttributeError"
  using admission_text_reducer [of example_consolidated undefined] admission_text_reducer [of "[]" undefined]
  by (simp add: example_consolidated_def example_extract_sections example_no_sections
      labelled_sections_def nl_def)

section \<open>Facts about the splitter\<close>

lemma mset_sample:
  assumes "\<And>seed n. mset (rng seed n) = mset [0..<n]"
  shows "mset (sample rng seed xs) = mset xs"
proof -
  have "mset (sample rng seed xs) = image_mset (\<lambda>i. xs ! i) (mset (rng seed (length xs)))"
    by (simp add: sample_def)
  also have "\<dots> = image_mset (\<lambda>i. xs ! i) (mset [0..<length xs])"
    by (simp only: assms)
  also have "\<dots> = mset (map (\<lambda>i. xs ! i) [0..<length xs])"
    by simp
  also have "\<dots> = mset xs"
    by (simp only: map_nth)
  finally show ?thesis .
qed

lemma mset_split_set:
  assumes "\<And>seed n. mset (rng seed n) = mset [0..<n]"
  shows "mset (split_set rng seed subject_ids df) =
           mset (filter (\<lambda>(i, r). k_SUBJECT_ID r \<in> set subject_ids) (enumerate 0 df))"
  unfolding split_set_def using assms by (rule mset_sample)

lemma set_split_set:
  assumes "\<And>seed n. mset (rng seed n) = mset [0..<n]"
  shows "x \<in> set (split_set rng seed subject_ids df) \<longleftrightarrow>
           fst x < length df \<and> snd x = df ! fst x \<and> k_SUBJECT_ID (snd x) \<in> set subject_ids"
proof -
  have "set (split_set rng seed subject_ids df) =
          set (filter (\<lambda>(i, r). k_SUBJECT_ID r \<in> set subject_ids) (enumerate 0 df))"
    by (rule mset_eq_setD [OF mset_split_set [where rng = rng, OF assms]])
  then have "x \<in> set (split_set rng seed subject_ids df) \<longleftrightarrow>
      x \<in> set (enumerate 0 df) \<and> k_SUBJECT_ID (snd x) \<in> set subject_ids"
    by (simp add: case_prod_unfold)
  also have "x \<in> set (enumerate 0 df) \<longleftrightarrow> fst x < length df \<and> df ! fst x = snd x"
    by (simp add: in_set_enumerate_eq)
  finally show ?thesis
    by (simp add: eq_commute conj_assoc)
qed

lemma distinct_split_set:
  assumes "\<And>seed n. mset (rng seed n) = mset [0..<n]"
  shows "distinct (split_set rng seed subject_ids df)"
proof -
  have "distinct (filter (\<lambda>(i, r). k_SUBJECT_ID r \<in> set subject_ids) (enumerate 0 df))"
    by (intro distinct_filter distinct_enumerate)
  then show ?thesis
    by (simp only: mset_eq_imp_distinct_iff [OF mset_split_set [where rng = rng, OF assms]])
qed

lemma those_map_Some: "those xs = Some ys \<Longrightarrow> xs = map Some ys"
  by (induction xs arbitrary: ys) (auto split: option.splits)

lemma rename_cast_Some:
  "rename_cast cast r = Some k \<Longrightarrow>
     k_SUBJECT_ID k = l_SUBJECT_ID r \<and> Some (ID k) = map_option cast (l_HADM_ID r)"
  by (auto simp: rename_cast_def split: option.splits)

lemma map_rename_cast:
  "map (rename_cast cast) df = map Some kdf \<Longrightarrow>
     map k_SUBJECT_ID kdf = map l_SUBJECT_ID df \<and>
     map (Some \<circ> ID) kdf = map (map_option cast \<circ> l_HADM_ID) df"
proof (induction df arbitrary: kdf)
  case Nil
  then show ?case by simp
next
  case (Cons r df)
  then obtain k ks where kdf: "kdf = k # ks" by (cases kdf) auto
  with Cons.prems have k: "rename_cast cast r = Some k"
    and ks: "map (rename_cast cast) df = map Some ks"
    by auto
  from Cons.IH [OF ks] rename_cast_Some [OF k] show ?case
    by (simp add: kdf)
qed

lemma astype_int_Inr:
  assumes "astype_int cast df = Inr kdf"
  shows "map k_SUBJECT_ID kdf = map l_SUBJECT_ID df \<and>
         map (Some \<circ> ID) kdf = map (map_option cast \<circ> l_HADM_ID) df"
proof -
  from assms have "those (map (rename_cast cast) df) = Some kdf"
    by (simp add: astype_int_def split: option.splits)
  then have "map (rename_cast cast) df = map Some kdf"
    by (rule those_map_Some)
  then show ?thesis
    by (rule map_rename_cast)
qed

lemma example_rng_permutation: "mset (example_rng seed n) = mset [0..<n]"
  by (simp add: example_rng_def)

lemma example_astype_int: "astype_int example_cast example_labelled = Inr example_keyed"
  by (simp add: astype_int_def example_labelled_def example_keyed_def rename_cast_def example_cast_def)

lemma example_split_train:
  "split_set example_rng 123 (example_data_split Train) example_keyed =
     [(2, example_keyed ! 2), (0, example_keyed ! 0)]"
  by code_simp

lemma example_split_val:
  "split_set example_rng 123 (example_data_split Val) example_keyed = [(1, example_keyed ! 1)]"
  by code_simp

lemma example_split_test:
  "split_set example_rng 123 (example_data_split Test) example_keyed = []"
  by code_simp




section \<open>Properties of save\_mimic\_split\_patient\_wise\<close>

text \<open>
  Claim C1. With pairwise disjoint reference mappings, the rows the splitter selects for
  train, val and test (a row is a position of the table with its content) are pairwise
  disjoint, no SUBJECT\_ID has rows in two of them, and a row is in the selection of a split
  exactly when its SUBJECT\_ID is in that split's reference mapping. The three files hold
  the projections of these selections; they are written when the seed is one that numpy
  takes.
\<close>

theorem splits_are_disjoint:
  assumes "\<And>seed n. mset (rng seed n) = mset [0..<n]"
    and "set (data_split Train) \<inter> set (data_split Val) = {}"
    and "set (data_split Train) \<inter> set (data_split Test) = {}"
    and "set (data_split Val) \<inter> set (data_split Test) = {}"
    and "astype_int cast df = Inr kdf"
  shows "save_mimic_split_patient_wise rng cast data_split df task_name seed =
           (if valid_seed seed
            then Inr (map (\<lambda>s. (task_name @ ''_'' @ split_str s @ ''.csv'',
                   map (to_out_row \<circ> snd) (split_set rng seed (data_split s) kdf))) [Train, Val, Test])
            else Inl ValueError) \<and>
         map k_SUBJECT_ID kdf = map l_SUBJECT_ID df \<and>
         (\<forall>s x. x \<in> set (split_set rng seed (data_split s) kdf) \<longleftrightarrow>
            fst x < length kdf \<and> snd x = kdf ! fst x \<and> k_SUBJECT_ID (snd x) \<in> set (data_split s)) \<and>
         (\<forall>s. distinct (split_set rng seed (data_split s) kdf)) \<and>
         (\<forall>s s'. s \<noteq> s' \<longrightarrow>
            set (split_set rng seed (data_split s) kdf) \<inter> set (split_set rng seed (data_split s') kdf) = {}) \<and>
         (\<forall>s s' x y. x \<in> set (split_set rng seed (data_split s) kdf) \<and>
            y \<in> set (split_set rng seed (data_split s') kdf) \<and>
            k_SUBJECT_ID (snd x) = k_SUBJECT_ID (snd y) \<longrightarrow> s = s')"
proof -
  note mem = set_split_set [where rng = rng, OF assms(1)]
  have disj: "set (data_split s) \<inter> set (data_split s') = {}" if "s \<noteq> s'" for s s'
    using that assms(2-4) by (cases s; cases s') auto
  have patient: "s = s'"
    if "x \<in> set (split_set rng seed (data_split s) kdf)"
      and "y \<in> set (split_set rng seed (data_split s') kdf)"
      and "k_SUBJECT_ID (snd x) = k_SUBJECT_ID (snd y)" for s s' x y
  proof (rule ccontr)
    assume "s \<noteq> s'"
    then have "set (data_split s) \<inter> set (data_split s') = {}" by (rule disj)
    moreover have "k_SUBJECT_ID (snd x) \<in> set (data_split s)"
      using that(1) mem by blast
    moreover have "k_SUBJECT_ID (snd y) \<in> set (data_split s')"
      using that(2) mem by blast
    ultimately show False
      using that(3) by auto
  qed
  have rows: "set (split_set rng seed (data_split s) kdf) \<inter> set (split_set rng seed (data_split s') kdf) = {}"
    if "s \<noteq> s'" for s s'
  proof (rule ccontr)
    assume "set (split_set rng seed (data_split s) kdf) \<inter> set (split_set rng seed (data_split s') kdf) \<noteq> {}"
    then obtain x where "x \<in> set (split_set rng seed (data_split s) kdf)"
      "x \<in> set (split_set rng seed (data_split s') kdf)" by blast
    then have "s = s'" by (rule patient) simp
    with that show False by simp
  qed
  have files: "save_mimic_split_patient_wise rng cast data_split df task_name seed =
           (if valid_seed seed
            then Inr (map (\<lambda>s. (task_name @ ''_'' @ split_str s @ ''.csv'',
                   map (to_out_row \<circ> snd) (split_set rng seed (data_split s) kdf))) [Train, Val, Test])
            else Inl ValueError)"
    by (simp add: save_mimic_split_patient_wise_def assms(5))
  have ids: "map k_SUBJECT_ID kdf = map l_SUBJECT_ID df"
    using astype_int_Inr [OF assms(5)] by simp
  show ?thesis
  proof (intro conjI allI impI)
    show "save_mimic_split_patient_wise rng cast data_split df task_name seed =
           (if valid_seed seed
            then Inr (map (\<lambda>s. (task_name @ ''_'' @ split_str s @ ''.csv'',
                   map (to_out_row \<circ> snd) (split_set rng seed (data_split s) kdf))) [Train, Val, Test])
            else Inl ValueError)"
      by (rule files)
    show "map k_SUBJECT_ID kdf = map l_SUBJECT_ID df"
      by (rule ids)
    show "x \<in> set (split_set rng seed (data_split s) kdf) \<longleftrightarrow>
            fst x < length kdf \<and> snd x = kdf ! fst x \<and> k_SUBJECT_ID (snd x) \<in> set (data_split s)" for s x
      by (rule mem)
    show "distinct (split_set rng seed (data_split s) kdf)" for s
      by (rule distinct_split_set [where rng = rng, OF assms(1)])
    show "set (split_set rng seed (data_split s) kdf) \<inter> set (split_set rng seed (data_split s') kdf) = {}"
      if "s \<noteq> s'" for s s'
      using that by (rule rows)
    show "s = s'"
      if "x \<in> set (split_set rng seed (data_split s) kdf) \<and>
            y \<in> set (split_set rng seed (data_split s') kdf) \<and>
            k_SUBJECT_ID (snd x) = k_SUBJECT_ID (snd y)" for s s' x y
      using that patient by blast
  qed
qed

theorem splits_are_disjoint_witness:
  "astype_int example_cast example_labelled = Inr example_keyed \<and>
   valid_seed 123 \<and>
   save_mimic_split_patient_wise example_rng example_cast example_data_split example_labelled ''mp'' 123 =
     Inr [(''mp_train.csv'', [\<lparr> o_id = 3, o_text = ''c'', o_label = ''1'' \<rparr>,
                              \<lparr> o_id = 1, o_text = ''a'', o_label = ''0'' \<rparr>]),
          (''mp_val.csv'', [\<lparr> o_id = 2, o_text = ''b'', o_label = ''1'' \<rparr>]),
          (''mp_test.csv'', [])] \<and>
   set (split_set example_rng 123 (example_data_split Train) example_keyed) \<inter>
     set (split_set example_rng 123 (example_data_split Val) example_keyed) = {}"
proof -
  have d: "set (example_data_split Train) \<inter> set (example_data_split Val) = {}"
    "set (example_data_split Train) \<inter> set (example_data_split Test) = {}"
    "set (example_data_split Val) \<inter> set (example_data_split Test) = {}"
    by (simp_all add: example_data_split_def)
  have v: "valid_seed 123"
    by (simp add: valid_seed_def)
  note inst = splits_are_disjoint [where rng = example_rng and task_name = "''mp''" and seed = 123,
      OF example_rng_permutation d example_astype_int]
  from inst have "save_mimic_split_patient_wise example_rng example_cast example_data_split
      example_labelled ''mp'' 123 =
      (if valid_seed 123 then Inr (map (\<lambda>s. (''mp'' @ ''_'' @ split_str s @ ''.csv'',
        map (to_out_row \<circ> snd) (split_set example_rng 123 (example_data_split s) example_keyed)))
        [Train, Val, Test]) else Inl ValueError)"
    by (rule conjunct1)
  then have files: "save_mimic_split_patient_wise example_rng example_cast example_data_split
      example_labelled ''mp'' 123 =
     Inr [(''mp_train.csv'', [\<lparr> o_id = 3, o_text = ''c'', o_label = ''1'' \<rparr>,
                              \<lparr> o_id = 1, o_text = ''a'', o_label = ''0'' \<rparr>]),
          (''mp_val.csv'', [\<lparr> o_id = 2, o_text = ''b'', o_label = ''1'' \<rparr>]),
          (''mp_test.csv'', [])]"
    unfolding list.map example_split_train example_split_val example_split_test if_P [OF v]
    by (simp add: split_str_def to_out_row_def example_keyed_def)
  from inst have "set (split_set example_rng 123 (example_data_split Train) example_keyed) \<inter>
     set (split_set example_rng 123 (example_data_split Val) example_keyed) = {}"
    by blast
  with files example_astype_int v show ?thesis
    by (intro conjI)
qed




end
